theory Spec2Isabelle
  imports Main
begin

section \<open>Schema validation settings of openapi3\<close>

text \<open>
  A shallow embedding of \<^verbatim>\<open>openapi3/schema_validation_settings.go\<close>.

  Go values are modelled as follows.
  \<^item> A pointer (\<^verbatim>\<open>*Schema\<close>, \<^verbatim>\<open>*SchemaRef\<close>, the receiver
    \<^verbatim>\<open>*schemaValidationSettings\<close>) is an \<open>option\<close>: \<open>None\<close> is \<^verbatim>\<open>nil\<close>.
  \<^item> A function value (\<^verbatim>\<open>func()\<close>, \<^verbatim>\<open>func(string) *Schema\<close>,
    \<^verbatim>\<open>SchemaValidationOption\<close>) is an \<open>option\<close> as well: \<open>None\<close> is the
    \<^verbatim>\<open>nil\<close> function, \<open>Some f\<close> a closure.
  \<^item> Dereferencing \<^verbatim>\<open>nil\<close> and calling a \<^verbatim>\<open>nil\<close> function panic; a
    panic is the left injection of a sum.
  \<^item> The hooks are arbitrary Go closures, so they may act on the world outside of the
    settings. The world is a type parameter \<open>'w\<close>, threaded through every call of a hook:
    a hook that was not called leaves the world as it was, whatever the hook is.
\<close>

subsection \<open>Data model\<close>

datatype panic = NilPointerDereference

text \<open>
  Modelled from the spec: the struct \<^verbatim>\<open>SchemaRef\<close> is declared in another file of the
  package. \<^verbatim>\<open>schemaResolve\<close> reads its fields \<^verbatim>\<open>Ref\<close> (the reference string) and
  \<^verbatim>\<open>Value\<close> (the embedded \<^verbatim>\<open>*Schema\<close>); the schema itself is opaque here (\<open>'schema\<close>),
  as is \<^verbatim>\<open>SchemaError\<close> (\<open>'e\<close>).
\<close>

record 'schema SchemaRef =
  Ref :: string
  Value :: "'schema option"

text \<open>
  Modelled from the spec: \<^verbatim>\<open>sync.Once\<close> of the Go standard library, the "callback fired /
  not fired" latch. Its state is one flag; \<^verbatim>\<open>Do(f)\<close> calls \<open>f\<close> if and only if
  \<^verbatim>\<open>Do\<close> is called for the first time for this instance.
\<close>

record Once =
  once_done :: bool

definition Once_Do :: "Once \<Rightarrow> ('w \<Rightarrow> 'w) \<Rightarrow> 'w \<Rightarrow> Once \<times> 'w" where
  "Once_Do once f w =
     (if once_done once then (once, w) else (once\<lparr>once_done := True\<rparr>, f w))"

record ('w, 'e, 'schema) schemaValidationSettings =
  failfast :: bool
  multiError :: bool
  asreq :: bool
  asrep :: bool
  formatValidationEnabled :: bool
  unknownPropertyValidationEnabled :: bool
  patternValidationDisabled :: bool
  readOnlyValidationDisabled :: bool
  writeOnlyValidationDisabled :: bool
  onceSettingDefaults :: Once
  defaultsSet :: "('w \<Rightarrow> 'w) option"
  customizeMessageError :: "('e \<Rightarrow> string) option"
  customizeSchemaResolve :: "(string \<Rightarrow> 'w \<Rightarrow> 'schema option \<times> 'w) option"

type_synonym ('w, 'e, 'schema) SchemaValidationOption =
  "(('w, 'e, 'schema) schemaValidationSettings \<Rightarrow> ('w, 'e, 'schema) schemaValidationSettings) option"

subsection \<open>Resolving a schema reference\<close>

text \<open>
  \<^verbatim>\<open>if value = schemaRef.Value; value != nil || s.customizeSchemaResolve == nil { return }\<close>
  reads \<^verbatim>\<open>schemaRef\<close> first and the receiver only when the value is \<^verbatim>\<open>nil\<close>
  (\<^verbatim>\<open>||\<close> is short-circuit); then
  \<^verbatim>\<open>if ref := schemaRef.Ref; len(ref) > 0 { value = s.customizeSchemaResolve(ref) }\<close>.
\<close>

definition schemaResolve ::
  "('w, 'e, 'schema) schemaValidationSettings option \<Rightarrow> 'schema SchemaRef option \<Rightarrow> 'w
     \<Rightarrow> panic + ('schema option \<times> 'w)" where
  "schemaResolve s schemaRef w =
     (case schemaRef of
        None \<Rightarrow> Inl NilPointerDereference
      | Some r \<Rightarrow>
          (case Value r of
             Some v \<Rightarrow> Inr (Some v, w)
           | None \<Rightarrow>
               (case s of
                  None \<Rightarrow> Inl NilPointerDereference
                | Some st \<Rightarrow>
                    (case customizeSchemaResolve st of
                       None \<Rightarrow> Inr (None, w)
                     | Some resolve \<Rightarrow>
                         if length (Ref r) > 0 then Inr (resolve (Ref r) w)
                         else Inr (None, w)))))"

subsection \<open>The options\<close>

definition SetCustomizeSchemaResolve ::
  "(string \<Rightarrow> 'w \<Rightarrow> 'schema option \<times> 'w) option \<Rightarrow> ('w, 'e, 'schema) SchemaValidationOption" where
  "SetCustomizeSchemaResolve resolve = Some (\<lambda>s. s\<lparr>customizeSchemaResolve := resolve\<rparr>)"

definition FailFast :: "('w, 'e, 'schema) SchemaValidationOption" where
  "FailFast = Some (\<lambda>s. s\<lparr>failfast := True\<rparr>)"

definition MultiErrors :: "('w, 'e, 'schema) SchemaValidationOption" where
  "MultiErrors = Some (\<lambda>s. s\<lparr>multiError := True\<rparr>)"

definition VisitAsRequest :: "('w, 'e, 'schema) SchemaValidationOption" where
  "VisitAsRequest = Some (\<lambda>s. s\<lparr>asreq := True, asrep := False\<rparr>)"

definition VisitAsResponse :: "('w, 'e, 'schema) SchemaValidationOption" where
  "VisitAsResponse = Some (\<lambda>s. s\<lparr>asreq := False, asrep := True\<rparr>)"

definition EnableUnknownPropertyValidation :: "('w, 'e, 'schema) SchemaValidationOption" where
  "EnableUnknownPropertyValidation = Some (\<lambda>s. s\<lparr>unknownPropertyValidationEnabled := True\<rparr>)"

definition EnableFormatValidation :: "('w, 'e, 'schema) SchemaValidationOption" where
  "EnableFormatValidation = Some (\<lambda>s. s\<lparr>formatValidationEnabled := True\<rparr>)"

definition DisablePatternValidation :: "('w, 'e, 'schema) SchemaValidationOption" where
  "DisablePatternValidation = Some (\<lambda>s. s\<lparr>patternValidationDisabled := True\<rparr>)"

definition DisableReadOnlyValidation :: "('w, 'e, 'schema) SchemaValidationOption" where
  "DisableReadOnlyValidation = Some (\<lambda>s. s\<lparr>readOnlyValidationDisabled := True\<rparr>)"

definition DisableWriteOnlyValidation :: "('w, 'e, 'schema) SchemaValidationOption" where
  "DisableWriteOnlyValidation = Some (\<lambda>s. s\<lparr>writeOnlyValidationDisabled := True\<rparr>)"

definition DefaultsSet :: "('w \<Rightarrow> 'w) option \<Rightarrow> ('w, 'e, 'schema) SchemaValidationOption" where
  "DefaultsSet f = Some (\<lambda>s. s\<lparr>defaultsSet := f\<rparr>)"

definition SetSchemaErrorMessageCustomizer ::
  "('e \<Rightarrow> string) option \<Rightarrow> ('w, 'e, 'schema) SchemaValidationOption" where
  "SetSchemaErrorMessageCustomizer f = Some (\<lambda>s. s\<lparr>customizeMessageError := f\<rparr>)"

text \<open>
  The recognized option values: what the twelve exported constructors return. A caller
  outside of the package cannot build any other closure of this type (the settings type
  is not exported), but it can pass the \<^verbatim>\<open>nil\<close> option.
\<close>

inductive recognized :: "('w, 'e, 'schema) SchemaValidationOption \<Rightarrow> bool" where
  rec_SetCustomizeSchemaResolve: "recognized (SetCustomizeSchemaResolve resolve)"
| rec_FailFast: "recognized FailFast"
| rec_MultiErrors: "recognized MultiErrors"
| rec_VisitAsRequest: "recognized VisitAsRequest"
| rec_VisitAsResponse: "recognized VisitAsResponse"
| rec_EnableUnknownPropertyValidation: "recognized EnableUnknownPropertyValidation"
| rec_EnableFormatValidation: "recognized EnableFormatValidation"
| rec_DisablePatternValidation: "recognized DisablePatternValidation"
| rec_DisableReadOnlyValidation: "recognized DisableReadOnlyValidation"
| rec_DisableWriteOnlyValidation: "recognized DisableWriteOnlyValidation"
| rec_DefaultsSet: "recognized (DefaultsSet f)"
| rec_SetSchemaErrorMessageCustomizer: "recognized (SetSchemaErrorMessageCustomizer g)"

subsection \<open>Construction\<close>

text \<open>
  \<^verbatim>\<open>for _, opt := range opts { opt(settings) }\<close>: the options are called in the order of
  the list, each on the settings the earlier ones left; calling a \<^verbatim>\<open>nil\<close> option
  panics.
\<close>

fun range_opts ::
  "('w, 'e, 'schema) SchemaValidationOption list \<Rightarrow> ('w, 'e, 'schema) schemaValidationSettings
     \<Rightarrow> panic + ('w, 'e, 'schema) schemaValidationSettings" where
  "range_opts [] settings = Inr settings"
| "range_opts (opt # opts) settings =
     (case opt of
        None \<Rightarrow> Inl NilPointerDereference
      | Some f \<Rightarrow> range_opts opts (f settings))"

text \<open>
  \<^verbatim>\<open>&schemaValidationSettings{}\<close>: the composite literal with no field given is the zero
  value of every field (\<^verbatim>\<open>false\<close>, \<^verbatim>\<open>nil\<close>, a \<^verbatim>\<open>sync.Once\<close> that has not fired).
\<close>

definition zeroSettings :: "('w, 'e, 'schema) schemaValidationSettings" where
  "zeroSettings =
     \<lparr>failfast = False, multiError = False, asreq = False, asrep = False,
      formatValidationEnabled = False, unknownPropertyValidationEnabled = False,
      patternValidationDisabled = False, readOnlyValidationDisabled = False,
      writeOnlyValidationDisabled = False,
      onceSettingDefaults = \<lparr>once_done = False\<rparr>,
      defaultsSet = None, customizeMessageError = None, customizeSchemaResolve = None\<rparr>"

definition newSchemaValidationSettings ::
  "('w, 'e, 'schema) SchemaValidationOption list
     \<Rightarrow> panic + ('w, 'e, 'schema) schemaValidationSettings" where
  "newSchemaValidationSettings opts = range_opts opts zeroSettings"

subsection \<open>What the validator does with the settings\<close>

text \<open>
  Modelled from the spec: "notify defaults applied" is performed by the schema traversal,
  in another file of the package; this file only declares the latch and the callback. By
  the spec the operation is a no-op when no callback is configured, and otherwise runs the
  callback through the latch, so that it executes at most once for the policy instance.
\<close>

definition notifyDefaultsApplied ::
  "('w, 'e, 'schema) schemaValidationSettings \<Rightarrow> 'w
     \<Rightarrow> ('w, 'e, 'schema) schemaValidationSettings \<times> 'w" where
  "notifyDefaultsApplied s w =
     (case defaultsSet s of
        None \<Rightarrow> (s, w)
      | Some f \<Rightarrow>
          (case Once_Do (onceSettingDefaults s) f w of
             (once, w') \<Rightarrow> (s\<lparr>onceSettingDefaults := once\<rparr>, w')))"

text \<open>\<open>n\<close> invocations of the operation in sequence, on the same policy instance.\<close>

fun notifyTimes ::
  "nat \<Rightarrow> ('w, 'e, 'schema) schemaValidationSettings \<Rightarrow> 'w
     \<Rightarrow> ('w, 'e, 'schema) schemaValidationSettings \<times> 'w" where
  "notifyTimes 0 s w = (s, w)"
| "notifyTimes (Suc n) s w =
     (case notifyDefaultsApplied s w of (s', w') \<Rightarrow> notifyTimes n s' w')"

text \<open>
  Modelled from the spec: "format error message" is the rendering of a
  \<^verbatim>\<open>SchemaError\<close>, in another file of the package; this file only declares the
  customizer. By the spec (and the comment on \<^verbatim>\<open>SetSchemaErrorMessageCustomizer\<close>) the
  validator falls back to its own rendering, here the parameter \<open>defaultError\<close>, when no
  customizer is configured or the customizer returns the empty string.
\<close>

definition formatErrorMessage ::
  "('w, 'e, 'schema) schemaValidationSettings \<Rightarrow> ('e \<Rightarrow> string) \<Rightarrow> 'e \<Rightarrow> string" where
  "formatErrorMessage s defaultError err =
     (case customizeMessageError s of
        None \<Rightarrow> defaultError err
      | Some f \<Rightarrow> (let msg = f err in if msg = [] then defaultError err else msg))"

subsection \<open>The logical fields of a policy\<close>

text \<open>
  The spec's vocabulary for the frame of an option: the eleven logical fields of a
  policy, the pair \<^verbatim>\<open>asreq\<close>/\<^verbatim>\<open>asrep\<close> being the one field "validation direction".
  \<open>copy_field k t s\<close> is \<open>s\<close> with the logical field \<open>k\<close> taken from \<open>t\<close>: an
  update \<open>t\<close> of \<open>s\<close> touches no field but \<open>k\<close> exactly when \<open>t = copy_field k t s\<close>.
\<close>

datatype logical_field =
    F_failfast
  | F_multiError
  | F_direction
  | F_formatValidationEnabled
  | F_unknownPropertyValidationEnabled
  | F_patternValidationDisabled
  | F_readOnlyValidationDisabled
  | F_writeOnlyValidationDisabled
  | F_defaultsSet
  | F_customizeMessageError
  | F_customizeSchemaResolve

fun copy_field ::
  "logical_field \<Rightarrow> ('w, 'e, 'schema) schemaValidationSettings
     \<Rightarrow> ('w, 'e, 'schema) schemaValidationSettings \<Rightarrow> ('w, 'e, 'schema) schemaValidationSettings" where
  "copy_field F_failfast t s = s\<lparr>failfast := failfast t\<rparr>"
| "copy_field F_multiError t s = s\<lparr>multiError := multiError t\<rparr>"
| "copy_field F_direction t s = s\<lparr>asreq := asreq t, asrep := asrep t\<rparr>"
| "copy_field F_formatValidationEnabled t s =
     s\<lparr>formatValidationEnabled := formatValidationEnabled t\<rparr>"
| "copy_field F_unknownPropertyValidationEnabled t s =
     s\<lparr>unknownPropertyValidationEnabled := unknownPropertyValidationEnabled t\<rparr>"
| "copy_field F_patternValidationDisabled t s =
     s\<lparr>patternValidationDisabled := patternValidationDisabled t\<rparr>"
| "copy_field F_readOnlyValidationDisabled t s =
     s\<lparr>readOnlyValidationDisabled := readOnlyValidationDisabled t\<rparr>"
| "copy_field F_writeOnlyValidationDisabled t s =
     s\<lparr>writeOnlyValidationDisabled := writeOnlyValidationDisabled t\<rparr>"
| "copy_field F_defaultsSet t s = s\<lparr>defaultsSet := defaultsSet t\<rparr>"
| "copy_field F_customizeMessageError t s = s\<lparr>customizeMessageError := customizeMessageError t\<rparr>"
| "copy_field F_customizeSchemaResolve t s =
     s\<lparr>customizeSchemaResolve := customizeSchemaResolve t\<rparr>"

section \<open>Auxiliary facts\<close>

lemmas opt_defs = SetCustomizeSchemaResolve_def FailFast_def MultiErrors_def VisitAsRequest_def
  VisitAsResponse_def EnableUnknownPropertyValidation_def EnableFormatValidation_def
  DisablePatternValidation_def DisableReadOnlyValidation_def DisableWriteOnlyValidation_def
  DefaultsSet_def SetSchemaErrorMessageCustomizer_def

lemma recognized_Some: "recognized opt \<Longrightarrow> \<exists>f. opt = Some f"
  by (erule recognized.cases) (simp_all add: opt_defs)

lemma range_opts_append:
  "range_opts (xs @ ys) s = (case range_opts xs s of Inl e \<Rightarrow> Inl e | Inr t \<Rightarrow> range_opts ys t)"
  by (induction xs arbitrary: s) (auto split: option.splits)

lemma range_opts_returns: "(\<exists>t. range_opts opts s = Inr t) \<longleftrightarrow> None \<notin> set opts"
  by (induction opts arbitrary: s) (auto split: option.splits)


lemma zero_simps [simp]:
  "failfast zeroSettings = False" "multiError zeroSettings = False"
  "asreq zeroSettings = False" "asrep zeroSettings = False"
  "formatValidationEnabled zeroSettings = False"
  "unknownPropertyValidationEnabled zeroSettings = False"
  "patternValidationDisabled zeroSettings = False"
  "readOnlyValidationDisabled zeroSettings = False"
  "writeOnlyValidationDisabled zeroSettings = False"
  "onceSettingDefaults zeroSettings = \<lparr>once_done = False\<rparr>"
  "defaultsSet zeroSettings = None" "customizeMessageError zeroSettings = None"
  "customizeSchemaResolve zeroSettings = None"
  by (simp_all add: zeroSettings_def)

lemma recognized_toggle_step:
  assumes "recognized opt" and "opt = Some f"
  shows "failfast (f s) = (failfast s \<or> failfast (f zeroSettings))"
    and "multiError (f s) = (multiError s \<or> multiError (f zeroSettings))"
    and "formatValidationEnabled (f s)
           = (formatValidationEnabled s \<or> formatValidationEnabled (f zeroSettings))"
    and "unknownPropertyValidationEnabled (f s)
           = (unknownPropertyValidationEnabled s \<or> unknownPropertyValidationEnabled (f zeroSettings))"
    and "patternValidationDisabled (f s)
           = (patternValidationDisabled s \<or> patternValidationDisabled (f zeroSettings))"
    and "readOnlyValidationDisabled (f s)
           = (readOnlyValidationDisabled s \<or> readOnlyValidationDisabled (f zeroSettings))"
    and "writeOnlyValidationDisabled (f s)
           = (writeOnlyValidationDisabled s \<or> writeOnlyValidationDisabled (f zeroSettings))"
    and "onceSettingDefaults (f s) = onceSettingDefaults s"
  using assms by (induction rule: recognized.induct; auto simp: opt_defs)+

lemma by_effect_FailFast:
  assumes "recognized opt" and "opt = Some f"
  shows "(opt = FailFast) = failfast (f zeroSettings)"
proof
  assume "opt = FailFast"
  with assms(2) have "f = (\<lambda>s. s\<lparr>failfast := True\<rparr>)" by (simp add: FailFast_def)
  then show "failfast (f zeroSettings)" by simp
next
  assume "failfast (f zeroSettings)"
  with assms show "opt = FailFast"
    by (induction rule: recognized.induct) (auto simp: opt_defs)
qed

lemma by_effect_MultiErrors:
  assumes "recognized opt" and "opt = Some f"
  shows "(opt = MultiErrors) = multiError (f zeroSettings)"
proof
  assume "opt = MultiErrors"
  with assms(2) have "f = (\<lambda>s. s\<lparr>multiError := True\<rparr>)" by (simp add: MultiErrors_def)
  then show "multiError (f zeroSettings)" by simp
next
  assume "multiError (f zeroSettings)"
  with assms show "opt = MultiErrors"
    by (induction rule: recognized.induct) (auto simp: opt_defs)
qed

lemma by_effect_EnableFormatValidation:
  assumes "recognized opt" and "opt = Some f"
  shows "(opt = EnableFormatValidation) = formatValidationEnabled (f zeroSettings)"
proof
  assume "opt = EnableFormatValidation"
  with assms(2) have "f = (\<lambda>s. s\<lparr>formatValidationEnabled := True\<rparr>)" by (simp add: EnableFormatValidation_def)
  then show "formatValidationEnabled (f zeroSettings)" by simp
next
  assume "formatValidationEnabled (f zeroSettings)"
  with assms show "opt = EnableFormatValidation"
    by (induction rule: recognized.induct) (auto simp: opt_defs)
qed

lemma by_effect_EnableUnknownPropertyValidation:
  assumes "recognized opt" and "opt = Some f"
  shows "(opt = EnableUnknownPropertyValidation) = unknownPropertyValidationEnabled (f zeroSettings)"
proof
  assume "opt = EnableUnknownPropertyValidation"
  with assms(2) have "f = (\<lambda>s. s\<lparr>unknownPropertyValidationEnabled := True\<rparr>)" by (simp add: EnableUnknownPropertyValidation_def)
  then show "unknownPropertyValidationEnabled (f zeroSettings)" by simp
next
  assume "unknownPropertyValidationEnabled (f zeroSettings)"
  with assms show "opt = EnableUnknownPropertyValidation"
    by (induction rule: recognized.induct) (auto simp: opt_defs)
qed

lemma by_effect_DisablePatternValidation:
  assumes "recognized opt" and "opt = Some f"
  shows "(opt = DisablePatternValidation) = patternValidationDisabled (f zeroSettings)"
proof
  assume "opt = DisablePatternValidation"
  with assms(2) have "f = (\<lambda>s. s\<lparr>patternValidationDisabled := True\<rparr>)" by (simp add: DisablePatternValidation_def)
  then show "patternValidationDisabled (f zeroSettings)" by simp
next
  assume "patternValidationDisabled (f zeroSettings)"
  with assms show "opt = DisablePatternValidation"
    by (induction rule: recognized.induct) (auto simp: opt_defs)
qed

lemma by_effect_DisableReadOnlyValidation:
  assumes "recognized opt" and "opt = Some f"
  shows "(opt = DisableReadOnlyValidation) = readOnlyValidationDisabled (f zeroSettings)"
proof
  assume "opt = DisableReadOnlyValidation"
  with assms(2) have "f = (\<lambda>s. s\<lparr>readOnlyValidationDisabled := True\<rparr>)" by (simp add: DisableReadOnlyValidation_def)
  then show "readOnlyValidationDisabled (f zeroSettings)" by simp
next
  assume "readOnlyValidationDisabled (f zeroSettings)"
  with assms show "opt = DisableReadOnlyValidation"
    by (induction rule: recognized.induct) (auto simp: opt_defs)
qed

lemma by_effect_DisableWriteOnlyValidation:
  assumes "recognized opt" and "opt = Some f"
  shows "(opt = DisableWriteOnlyValidation) = writeOnlyValidationDisabled (f zeroSettings)"
proof
  assume "opt = DisableWriteOnlyValidation"
  with assms(2) have "f = (\<lambda>s. s\<lparr>writeOnlyValidationDisabled := True\<rparr>)" by (simp add: DisableWriteOnlyValidation_def)
  then show "writeOnlyValidationDisabled (f zeroSettings)" by simp
next
  assume "writeOnlyValidationDisabled (f zeroSettings)"
  with assms show "opt = DisableWriteOnlyValidation"
    by (induction rule: recognized.induct) (auto simp: opt_defs)
qed

lemma by_effect_VisitAsRequest:
  assumes "recognized opt" and "opt = Some f"
  shows "(opt = VisitAsRequest) = asreq (f zeroSettings)"
proof
  assume "opt = VisitAsRequest"
  with assms(2) have "f = (\<lambda>s. s\<lparr>asreq := True, asrep := False\<rparr>)" by (simp add: VisitAsRequest_def)
  then show "asreq (f zeroSettings)" by simp
next
  assume "asreq (f zeroSettings)"
  with assms show "opt = VisitAsRequest"
    by (induction rule: recognized.induct) (auto simp: opt_defs)
qed

lemma by_effect_VisitAsResponse:
  assumes "recognized opt" and "opt = Some f"
  shows "(opt = VisitAsResponse) = asrep (f zeroSettings)"
proof
  assume "opt = VisitAsResponse"
  with assms(2) have "f = (\<lambda>s. s\<lparr>asreq := False, asrep := True\<rparr>)" by (simp add: VisitAsResponse_def)
  then show "asrep (f zeroSettings)" by simp
next
  assume "asrep (f zeroSettings)"
  with assms show "opt = VisitAsResponse"
    by (induction rule: recognized.induct) (auto simp: opt_defs)
qed

section \<open>The validation direction\<close>

lemma recognized_direction_step:
  assumes "recognized opt" and "opt = Some f"
  shows "asreq (f s) = (asreq (f zeroSettings) \<or> (\<not> asrep (f zeroSettings) \<and> asreq s))"
    and "asrep (f s) = (asrep (f zeroSettings) \<or> (\<not> asreq (f zeroSettings) \<and> asrep s))"
    and "\<not> (asreq (f zeroSettings) \<and> asrep (f zeroSettings))"
  using assms by (induction rule: recognized.induct; auto simp: opt_defs)+

lemma range_opts_recognized:
  "list_all recognized opts \<Longrightarrow> \<exists>t. range_opts opts s = Inr t"
  by (induction opts arbitrary: s) (auto dest: recognized_Some)

lemma range_opts_exclusive:
  "list_all recognized opts \<Longrightarrow> \<not> (asreq s \<and> asrep s)
     \<Longrightarrow> \<exists>t. range_opts opts s = Inr t \<and> \<not> (asreq t \<and> asrep t)"
proof (induction opts arbitrary: s)
  case Nil
  then show ?case by simp
next
  case (Cons opt opts)
  from Cons.prems(1) have r: "recognized opt" and rs: "list_all recognized opts" by simp_all
  from r obtain f where f: "opt = Some f" using recognized_Some by blast
  have "\<not> (asreq (f s) \<and> asrep (f s))"
    using recognized_direction_step(1,2)[OF r f, of s] recognized_direction_step(3)[OF r f]
      Cons.prems(2) by blast
  from Cons.IH[OF rs this] show ?case by (simp add: f)
qed

lemma range_opts_keeps_response:
  "list_all recognized zs \<Longrightarrow> VisitAsRequest \<notin> set zs \<Longrightarrow> \<not> asreq s \<Longrightarrow> asrep s
     \<Longrightarrow> \<exists>t. range_opts zs s = Inr t \<and> \<not> asreq t \<and> asrep t"
proof (induction zs arbitrary: s)
  case Nil
  then show ?case by simp
next
  case (Cons opt zs)
  from Cons.prems(1) have r: "recognized opt" and rs: "list_all recognized zs" by simp_all
  from r obtain f where f: "opt = Some f" using recognized_Some by blast
  from Cons.prems(2) have "opt \<noteq> VisitAsRequest" and n: "VisitAsRequest \<notin> set zs" by auto
  then have "\<not> asreq (f zeroSettings)" using by_effect_VisitAsRequest[OF r f] by simp
  then have "\<not> asreq (f s)" and "asrep (f s)"
    using recognized_direction_step(1,2)[OF r f, of s] Cons.prems(3,4) by blast+
  from Cons.IH[OF rs n this] show ?case by (simp add: f)
qed

text \<open>
  C3. For every finite sequence of recognized options the constructed policy never has
  \<open>asreq\<close> and \<open>asrep\<close> both set. Validate-as-request followed by
  validate-as-response, after any recognized options and before any recognized options
  other than validate-as-request, yields a policy whose direction is AsResponse only.
\<close>

theorem direction_mutually_exclusive:
  "(list_all recognized opts \<longrightarrow>
      (\<exists>s. newSchemaValidationSettings opts = Inr s \<and> \<not> (asreq s \<and> asrep s)))
   \<and> (list_all recognized xs \<and> list_all recognized zs \<and> VisitAsRequest \<notin> set zs \<longrightarrow>
      (\<exists>s. newSchemaValidationSettings (xs @ [VisitAsRequest, VisitAsResponse] @ zs) = Inr s
           \<and> \<not> asreq s \<and> asrep s))"
proof (intro conjI impI)
  assume "list_all recognized opts"
  then show "\<exists>s. newSchemaValidationSettings opts = Inr s \<and> \<not> (asreq s \<and> asrep s)"
    unfolding newSchemaValidationSettings_def
    by (rule range_opts_exclusive) simp
next
  assume a: "list_all recognized xs \<and> list_all recognized zs \<and> VisitAsRequest \<notin> set zs"
  then obtain t where t: "range_opts xs zeroSettings = Inr t"
    using range_opts_recognized by blast
  let ?u = "t\<lparr>asreq := True, asrep := False\<rparr>\<lparr>asreq := False, asrep := True\<rparr>"
  have "\<exists>s. range_opts zs ?u = Inr s \<and> \<not> asreq s \<and> asrep s"
    using a by (intro range_opts_keeps_response) simp_all
  then show "\<exists>s. newSchemaValidationSettings (xs @ [VisitAsRequest, VisitAsResponse] @ zs) = Inr s
           \<and> \<not> asreq s \<and> asrep s"
    by (simp add: newSchemaValidationSettings_def range_opts_append t
        VisitAsRequest_def VisitAsResponse_def)
qed

text \<open>The two parts of C3 on concrete option lists.\<close>

theorem direction_mutually_exclusive_witness:
  "list_all recognized [VisitAsResponse, FailFast, VisitAsRequest :: (nat, nat, nat) SchemaValidationOption]
   \<and> (\<exists>s. newSchemaValidationSettings
            [VisitAsResponse, FailFast, VisitAsRequest :: (nat, nat, nat) SchemaValidationOption] = Inr s
          \<and> \<not> (asreq s \<and> asrep s))
   \<and> list_all recognized [MultiErrors :: (nat, nat, nat) SchemaValidationOption]
   \<and> list_all recognized [FailFast :: (nat, nat, nat) SchemaValidationOption]
   \<and> (VisitAsRequest :: (nat, nat, nat) SchemaValidationOption) \<notin> set [FailFast]
   \<and> (\<exists>s. newSchemaValidationSettings
            ([MultiErrors] @ [VisitAsRequest, VisitAsResponse]
              @ [FailFast :: (nat, nat, nat) SchemaValidationOption]) = Inr s
          \<and> \<not> asreq s \<and> asrep s)"
proof -
  have h1: "list_all recognized
      [VisitAsResponse, FailFast, VisitAsRequest :: (nat, nat, nat) SchemaValidationOption]"
    by (simp add: recognized.intros)
  have h2: "list_all recognized [MultiErrors :: (nat, nat, nat) SchemaValidationOption]"
    and h3: "list_all recognized [FailFast :: (nat, nat, nat) SchemaValidationOption]"
    by (simp_all add: recognized.intros)
  have "(FailFast :: (nat, nat, nat) SchemaValidationOption) \<noteq> VisitAsRequest"
    using by_effect_VisitAsRequest[OF rec_FailFast FailFast_def] by simp
  then have h4: "(VisitAsRequest :: (nat, nat, nat) SchemaValidationOption) \<notin> set [FailFast]"
    by auto
  note inst = direction_mutually_exclusive[where opts = "[VisitAsResponse, FailFast, VisitAsRequest :: (nat, nat, nat) SchemaValidationOption]"
      and xs = "[MultiErrors]" and zs = "[FailFast]"]
  from inst h1 h2 h3 h4 show ?thesis by blast
qed

section \<open>The frame of an option\<close>

lemma copy_field_other: "k \<noteq> k' \<Longrightarrow> copy_field k (copy_field k' t s) s = s"
  by (cases k; cases k'; simp)

lemma copy_field_same: "copy_field k (copy_field k c s) s = copy_field k c s"
  by (cases k; simp)

lemma frame_unique:
  assumes a: "\<forall>s. f s = copy_field k (f s) s"
    and b: "\<forall>s. f s = copy_field k' (f s) s"
    and c: "f base \<noteq> base"
  shows "k' = k"
proof (rule ccontr)
  assume n: "k' \<noteq> k"
  from b have e: "f base = copy_field k' (f base) base" by blast
  from a have "f base = copy_field k (f base) base" by blast
  also have "\<dots> = copy_field k (copy_field k' (f base) base) base"
    using e by (rule arg_cong)
  also have "\<dots> = base" using n by (intro copy_field_other) simp
  finally show False using c by simp
qed

lemma exact_frameI:
  assumes o: "opt = Some f"
    and b: "\<forall>s. f s = copy_field k (f zeroSettings) s"
    and c: "get (f base) \<noteq> get base"
  shows "\<exists>f k. opt = Some f
           \<and> (\<forall>s. f s = copy_field k (f s) s)
           \<and> (\<forall>s. f s = copy_field k (f zeroSettings) s)
           \<and> (\<exists>s. f s \<noteq> s)
           \<and> (\<forall>k'. (\<forall>s. f s = copy_field k' (f s) s) \<longrightarrow> k' = k)"
proof -
  have a: "\<forall>s. f s = copy_field k (f s) s"
  proof
    fix s
    from b have e: "f s = copy_field k (f zeroSettings) s" by blast
    have "copy_field k (f s) s = copy_field k (copy_field k (f zeroSettings) s) s"
      using e by (rule arg_cong)
    also have "\<dots> = copy_field k (f zeroSettings) s" by (rule copy_field_same)
    finally show "f s = copy_field k (f s) s" using e by simp
  qed
  from c have d: "f base \<noteq> base" by auto
  have u: "\<forall>k'. (\<forall>s. f s = copy_field k' (f s) s) \<longrightarrow> k' = k"
    using frame_unique[OF a _ d] by blast
  from o a b d u show ?thesis by blast
qed

lemma recognized_frame_exact:
  "recognized opt \<Longrightarrow>
     \<exists>f k. opt = Some f
       \<and> (\<forall>s. f s = copy_field k (f s) s)
       \<and> (\<forall>s. f s = copy_field k (f zeroSettings) s)
       \<and> (\<exists>s. f s \<noteq> s)
       \<and> (\<forall>k'. (\<forall>s. f s = copy_field k' (f s) s) \<longrightarrow> k' = k)"
proof (induction rule: recognized.induct)
  case (rec_SetCustomizeSchemaResolve resolve)
  show ?case
    by (rule exact_frameI[where f = "\<lambda>s. s\<lparr>customizeSchemaResolve := resolve\<rparr>"
          and k = F_customizeSchemaResolve and get = customizeSchemaResolve
          and base = "zeroSettings\<lparr>customizeSchemaResolve :=
                        (if resolve = None then Some (\<lambda>ref w. (None, w)) else None)\<rparr>"])
      (simp_all add: SetCustomizeSchemaResolve_def)
next
  case rec_FailFast
  show ?case
    by (rule exact_frameI[where f = "\<lambda>s. s\<lparr>failfast := True\<rparr>"
          and k = F_failfast and get = failfast
          and base = zeroSettings])
      (simp_all add: FailFast_def)
next
  case rec_MultiErrors
  show ?case
    by (rule exact_frameI[where f = "\<lambda>s. s\<lparr>multiError := True\<rparr>"
          and k = F_multiError and get = multiError
          and base = zeroSettings])
      (simp_all add: MultiErrors_def)
next
  case rec_VisitAsRequest
  show ?case
    by (rule exact_frameI[where f = "\<lambda>s. s\<lparr>asreq := True, asrep := False\<rparr>"
          and k = F_direction and get = asreq
          and base = zeroSettings])
      (simp_all add: VisitAsRequest_def)
next
  case rec_VisitAsResponse
  show ?case
    by (rule exact_frameI[where f = "\<lambda>s. s\<lparr>asreq := False, asrep := True\<rparr>"
          and k = F_direction and get = asrep
          and base = zeroSettings])
      (simp_all add: VisitAsResponse_def)
next
  case rec_EnableUnknownPropertyValidation
  show ?case
    by (rule exact_frameI[where f = "\<lambda>s. s\<lparr>unknownPropertyValidationEnabled := True\<rparr>"
          and k = F_unknownPropertyValidationEnabled and get = unknownPropertyValidationEnabled
          and base = zeroSettings])
      (simp_all add: EnableUnknownPropertyValidation_def)
next
  case rec_EnableFormatValidation
  show ?case
    by (rule exact_frameI[where f = "\<lambda>s. s\<lparr>formatValidationEnabled := True\<rparr>"
          and k = F_formatValidationEnabled and get = formatValidationEnabled
          and base = zeroSettings])
      (simp_all add: EnableFormatValidation_def)
next
  case rec_DisablePatternValidation
  show ?case
    by (rule exact_frameI[where f = "\<lambda>s. s\<lparr>patternValidationDisabled := True\<rparr>"
          and k = F_patternValidationDisabled and get = patternValidationDisabled
          and base = zeroSettings])
      (simp_all add: DisablePatternValidation_def)
next
  case rec_DisableReadOnlyValidation
  show ?case
    by (rule exact_frameI[where f = "\<lambda>s. s\<lparr>readOnlyValidationDisabled := True\<rparr>"
          and k = F_readOnlyValidationDisabled and get = readOnlyValidationDisabled
          and base = zeroSettings])
      (simp_all add: DisableReadOnlyValidation_def)
next
  case rec_DisableWriteOnlyValidation
  show ?case
    by (rule exact_frameI[where f = "\<lambda>s. s\<lparr>writeOnlyValidationDisabled := True\<rparr>"
          and k = F_writeOnlyValidationDisabled and get = writeOnlyValidationDisabled
          and base = zeroSettings])
      (simp_all add: DisableWriteOnlyValidation_def)
next
  case (rec_DefaultsSet f)
  show ?case
    by (rule exact_frameI[where f = "\<lambda>s. s\<lparr>defaultsSet := f\<rparr>"
          and k = F_defaultsSet and get = defaultsSet
          and base = "zeroSettings\<lparr>defaultsSet :=
                        (if f = None then Some (\<lambda>w. w) else None)\<rparr>"])
      (simp_all add: DefaultsSet_def)
next
  case (rec_SetSchemaErrorMessageCustomizer g)
  show ?case
    by (rule exact_frameI[where f = "\<lambda>s. s\<lparr>customizeMessageError := g\<rparr>"
          and k = F_customizeMessageError and get = customizeMessageError
          and base = "zeroSettings\<lparr>customizeMessageError :=
                        (if g = None then Some (\<lambda>e. []) else None)\<rparr>"])
      (simp_all add: SetSchemaErrorMessageCustomizer_def)
qed

lemma range_opts_toggles:
  "list_all recognized opts \<Longrightarrow>
     \<exists>t. range_opts opts s = Inr t
       \<and> (failfast t \<longleftrightarrow> failfast s \<or> FailFast \<in> set opts)
       \<and> (multiError t \<longleftrightarrow> multiError s \<or> MultiErrors \<in> set opts)
       \<and> (formatValidationEnabled t \<longleftrightarrow>
            formatValidationEnabled s \<or> EnableFormatValidation \<in> set opts)
       \<and> (unknownPropertyValidationEnabled t \<longleftrightarrow>
            unknownPropertyValidationEnabled s \<or> EnableUnknownPropertyValidation \<in> set opts)
       \<and> (patternValidationDisabled t \<longleftrightarrow>
            patternValidationDisabled s \<or> DisablePatternValidation \<in> set opts)
       \<and> (readOnlyValidationDisabled t \<longleftrightarrow>
            readOnlyValidationDisabled s \<or> DisableReadOnlyValidation \<in> set opts)
       \<and> (writeOnlyValidationDisabled t \<longleftrightarrow>
            writeOnlyValidationDisabled s \<or> DisableWriteOnlyValidation \<in> set opts)
       \<and> onceSettingDefaults t = onceSettingDefaults s"
proof (induction opts arbitrary: s)
  case Nil
  then show ?case by simp
next
  case (Cons opt opts)
  from Cons.prems have r: "recognized opt" and rs: "list_all recognized opts" by simp_all
  from r obtain f where f: "opt = Some f" using recognized_Some by blast
  note step = recognized_toggle_step[OF r f, of s]
  note eff = by_effect_FailFast[OF r f] by_effect_MultiErrors[OF r f]
    by_effect_EnableFormatValidation[OF r f] by_effect_EnableUnknownPropertyValidation[OF r f]
    by_effect_DisablePatternValidation[OF r f] by_effect_DisableReadOnlyValidation[OF r f]
    by_effect_DisableWriteOnlyValidation[OF r f]
  from Cons.IH[OF rs, of "f s"] obtain t where t: "range_opts opts (f s) = Inr t"
    and t1: "failfast t \<longleftrightarrow> failfast (f s) \<or> FailFast \<in> set opts"
    and t2: "multiError t \<longleftrightarrow> multiError (f s) \<or> MultiErrors \<in> set opts"
    and t3: "formatValidationEnabled t \<longleftrightarrow>
            formatValidationEnabled (f s) \<or> EnableFormatValidation \<in> set opts"
    and t4: "unknownPropertyValidationEnabled t \<longleftrightarrow>
            unknownPropertyValidationEnabled (f s) \<or> EnableUnknownPropertyValidation \<in> set opts"
    and t5: "patternValidationDisabled t \<longleftrightarrow>
            patternValidationDisabled (f s) \<or> DisablePatternValidation \<in> set opts"
    and t6: "readOnlyValidationDisabled t \<longleftrightarrow>
            readOnlyValidationDisabled (f s) \<or> DisableReadOnlyValidation \<in> set opts"
    and t7: "writeOnlyValidationDisabled t \<longleftrightarrow>
            writeOnlyValidationDisabled (f s) \<or> DisableWriteOnlyValidation \<in> set opts"
    and t8: "onceSettingDefaults t = onceSettingDefaults (f s)"
    by blast
  have e: "range_opts (opt # opts) s = Inr t" by (simp add: f t)
  have c1: "failfast t \<longleftrightarrow> failfast s \<or> FailFast \<in> set (opt # opts)"
    using t1 step(1) eff(1) by auto
  have c2: "multiError t \<longleftrightarrow> multiError s \<or> MultiErrors \<in> set (opt # opts)"
    using t2 step(2) eff(2) by auto
  have c3: "formatValidationEnabled t \<longleftrightarrow>
            formatValidationEnabled s \<or> EnableFormatValidation \<in> set (opt # opts)"
    using t3 step(3) eff(3) by auto
  have c4: "unknownPropertyValidationEnabled t \<longleftrightarrow>
            unknownPropertyValidationEnabled s \<or> EnableUnknownPropertyValidation \<in> set (opt # opts)"
    using t4 step(4) eff(4) by auto
  have c5: "patternValidationDisabled t \<longleftrightarrow>
            patternValidationDisabled s \<or> DisablePatternValidation \<in> set (opt # opts)"
    using t5 step(5) eff(5) by auto
  have c6: "readOnlyValidationDisabled t \<longleftrightarrow>
            readOnlyValidationDisabled s \<or> DisableReadOnlyValidation \<in> set (opt # opts)"
    using t6 step(6) eff(6) by auto
  have c7: "writeOnlyValidationDisabled t \<longleftrightarrow>
            writeOnlyValidationDisabled s \<or> DisableWriteOnlyValidation \<in> set (opt # opts)"
    using t7 step(7) eff(7) by auto
  have c8: "onceSettingDefaults t = onceSettingDefaults s"
    using t8 step(8) by simp
  from e c1 c2 c3 c4 c5 c6 c7 c8 show ?case by blast
qed

text \<open>
  C5. A recognized option is a non-nil function that mutates exactly one logical field of
  the settings (the pair \<open>asreq\<close>/\<open>asrep\<close> counting as one). Its result is the
  argument with the field \<open>k\<close> replaced, every other field and the latch unchanged; the
  value written does not depend on the argument (it is the one the option writes to the
  zero settings); the option does write, since some settings are changed by it; and \<open>k\<close>
  is the only logical field with that frame. What each of the twelve options writes is
  listed: the toggles write true, the direction options set one direction and clear the
  other, the hook setters store their argument. Hence, for every sequence of recognized
  options, each of the seven independent boolean toggles of the constructed policy is set
  exactly when its own option occurs in the sequence, whatever the other options are.
\<close>

theorem option_frame_and_independence:
  "(recognized opt \<longrightarrow>
      (\<exists>f k. opt = Some f
           \<and> (\<forall>s. f s = copy_field k (f s) s)
           \<and> (\<forall>s. f s = copy_field k (f zeroSettings) s)
           \<and> (\<exists>s. f s \<noteq> s)
           \<and> (\<forall>k'. (\<forall>s. f s = copy_field k' (f s) s) \<longrightarrow> k' = k)))
   \<and> ((\<exists>f. FailFast = Some f \<and> (\<forall>s. failfast (f s)))
       \<and> (\<exists>f. MultiErrors = Some f \<and> (\<forall>s. multiError (f s)))
       \<and> (\<exists>f. VisitAsRequest = Some f \<and> (\<forall>s. asreq (f s) \<and> \<not> asrep (f s)))
       \<and> (\<exists>f. VisitAsResponse = Some f \<and> (\<forall>s. \<not> asreq (f s) \<and> asrep (f s)))
       \<and> (\<exists>f. EnableUnknownPropertyValidation = Some f
              \<and> (\<forall>s. unknownPropertyValidationEnabled (f s)))
       \<and> (\<exists>f. EnableFormatValidation = Some f \<and> (\<forall>s. formatValidationEnabled (f s)))
       \<and> (\<exists>f. DisablePatternValidation = Some f \<and> (\<forall>s. patternValidationDisabled (f s)))
       \<and> (\<exists>f. DisableReadOnlyValidation = Some f \<and> (\<forall>s. readOnlyValidationDisabled (f s)))
       \<and> (\<exists>f. DisableWriteOnlyValidation = Some f \<and> (\<forall>s. writeOnlyValidationDisabled (f s)))
       \<and> (\<exists>f. DefaultsSet d = Some f \<and> (\<forall>s. defaultsSet (f s) = d))
       \<and> (\<exists>f. SetSchemaErrorMessageCustomizer c = Some f
              \<and> (\<forall>s. customizeMessageError (f s) = c))
       \<and> (\<exists>f. SetCustomizeSchemaResolve r = Some f
              \<and> (\<forall>s. customizeSchemaResolve (f s) = r)))
   \<and> (list_all recognized opts \<longrightarrow>
        (\<exists>s. newSchemaValidationSettings opts = Inr s
           \<and> (failfast s \<longleftrightarrow> FailFast \<in> set opts)
           \<and> (multiError s \<longleftrightarrow> MultiErrors \<in> set opts)
           \<and> (formatValidationEnabled s \<longleftrightarrow> EnableFormatValidation \<in> set opts)
           \<and> (unknownPropertyValidationEnabled s \<longleftrightarrow>
                EnableUnknownPropertyValidation \<in> set opts)
           \<and> (patternValidationDisabled s \<longleftrightarrow> DisablePatternValidation \<in> set opts)
           \<and> (readOnlyValidationDisabled s \<longleftrightarrow> DisableReadOnlyValidation \<in> set opts)
           \<and> (writeOnlyValidationDisabled s \<longleftrightarrow> DisableWriteOnlyValidation \<in> set opts)))"
proof (intro conjI impI)
  assume "recognized opt"
  then show "\<exists>f k. opt = Some f
           \<and> (\<forall>s. f s = copy_field k (f s) s)
           \<and> (\<forall>s. f s = copy_field k (f zeroSettings) s)
           \<and> (\<exists>s. f s \<noteq> s)
           \<and> (\<forall>k'. (\<forall>s. f s = copy_field k' (f s) s) \<longrightarrow> k' = k)"
    by (rule recognized_frame_exact)
next
  assume "list_all recognized opts"
  from range_opts_toggles[OF this, of zeroSettings]
  show "\<exists>s. newSchemaValidationSettings opts = Inr s
           \<and> (failfast s \<longleftrightarrow> FailFast \<in> set opts)
           \<and> (multiError s \<longleftrightarrow> MultiErrors \<in> set opts)
           \<and> (formatValidationEnabled s \<longleftrightarrow> EnableFormatValidation \<in> set opts)
           \<and> (unknownPropertyValidationEnabled s \<longleftrightarrow>
                EnableUnknownPropertyValidation \<in> set opts)
           \<and> (patternValidationDisabled s \<longleftrightarrow> DisablePatternValidation \<in> set opts)
           \<and> (readOnlyValidationDisabled s \<longleftrightarrow> DisableReadOnlyValidation \<in> set opts)
           \<and> (writeOnlyValidationDisabled s \<longleftrightarrow> DisableWriteOnlyValidation \<in> set opts)"
    unfolding newSchemaValidationSettings_def by simp blast
qed (simp_all add: opt_defs)

text \<open>
  C5 on validate-as-response, and on a list of three options: the toggles of the options
  in the list are set, and \<open>multiError\<close>, whose option is not in the list, is not.
\<close>

theorem option_frame_and_independence_witness:
  "recognized (VisitAsResponse :: (nat, nat, nat) SchemaValidationOption)
   \<and> (\<exists>f k. (VisitAsResponse :: (nat, nat, nat) SchemaValidationOption) = Some f
         \<and> (\<forall>s. f s = copy_field k (f s) s)
         \<and> (\<forall>s. f s = copy_field k (f zeroSettings) s)
         \<and> (\<exists>s. f s \<noteq> s)
         \<and> (\<forall>k'. (\<forall>s. f s = copy_field k' (f s) s) \<longrightarrow> k' = k))
   \<and> list_all recognized [DisablePatternValidation, VisitAsRequest, FailFast :: (nat, nat, nat) SchemaValidationOption]
   \<and> (\<exists>s. newSchemaValidationSettings
            [DisablePatternValidation, VisitAsRequest, FailFast :: (nat, nat, nat) SchemaValidationOption] = Inr s
         \<and> failfast s \<and> patternValidationDisabled s \<and> \<not> multiError s)"
proof -
  let ?opts = "[DisablePatternValidation, VisitAsRequest, FailFast :: (nat, nat, nat) SchemaValidationOption]"
  have h1: "recognized (VisitAsResponse :: (nat, nat, nat) SchemaValidationOption)"
    by (rule rec_VisitAsResponse)
  have h2: "list_all recognized ?opts"
    by (simp add: recognized.intros)
  have c1: "\<exists>f k. (VisitAsResponse :: (nat, nat, nat) SchemaValidationOption) = Some f
         \<and> (\<forall>s. f s = copy_field k (f s) s)
         \<and> (\<forall>s. f s = copy_field k (f zeroSettings) s)
         \<and> (\<exists>s. f s \<noteq> s)
         \<and> (\<forall>k'. (\<forall>s. f s = copy_field k' (f s) s) \<longrightarrow> k' = k)"
    by (rule option_frame_and_independence[THEN conjunct1, THEN mp]) (rule h1)
  have "\<exists>s. newSchemaValidationSettings ?opts = Inr s
           \<and> (failfast s \<longleftrightarrow> FailFast \<in> set ?opts)
           \<and> (multiError s \<longleftrightarrow> MultiErrors \<in> set ?opts)
           \<and> (formatValidationEnabled s \<longleftrightarrow> EnableFormatValidation \<in> set ?opts)
           \<and> (unknownPropertyValidationEnabled s \<longleftrightarrow>
                EnableUnknownPropertyValidation \<in> set ?opts)
           \<and> (patternValidationDisabled s \<longleftrightarrow> DisablePatternValidation \<in> set ?opts)
           \<and> (readOnlyValidationDisabled s \<longleftrightarrow> DisableReadOnlyValidation \<in> set ?opts)
           \<and> (writeOnlyValidationDisabled s \<longleftrightarrow> DisableWriteOnlyValidation \<in> set ?opts)"
    by (rule option_frame_and_independence[THEN conjunct2, THEN conjunct2, THEN mp]) (rule h2)
  then obtain s where s: "newSchemaValidationSettings ?opts = Inr s"
    and s1: "failfast s \<longleftrightarrow> FailFast \<in> set ?opts"
    and s2: "multiError s \<longleftrightarrow> MultiErrors \<in> set ?opts"
    and s3: "patternValidationDisabled s \<longleftrightarrow> DisablePatternValidation \<in> set ?opts"
    by blast
  have n1: "(DisablePatternValidation :: (nat, nat, nat) SchemaValidationOption) \<noteq> MultiErrors"
    using by_effect_MultiErrors[OF rec_DisablePatternValidation DisablePatternValidation_def]
    by simp
  have n2: "(VisitAsRequest :: (nat, nat, nat) SchemaValidationOption) \<noteq> MultiErrors"
    using by_effect_MultiErrors[OF rec_VisitAsRequest VisitAsRequest_def] by simp
  have n3: "(FailFast :: (nat, nat, nat) SchemaValidationOption) \<noteq> MultiErrors"
    using by_effect_MultiErrors[OF rec_FailFast FailFast_def] by simp
  from n1 n2 n3 have m: "MultiErrors \<notin> set ?opts" by auto
  from s1 have f1: "failfast s" by simp
  from s3 have f3: "patternValidationDisabled s" by simp
  from s2 m have f2: "\<not> multiError s" by simp
  from s f1 f3 f2 have c2: "\<exists>s. newSchemaValidationSettings ?opts = Inr s
         \<and> failfast s \<and> patternValidationDisabled s \<and> \<not> multiError s"
    by blast
  from h1 c1 h2 c2 show ?thesis by (intro conjI)
qed

section \<open>Resolving a schema reference\<close>

text \<open>
  C1. For every policy and every \<^verbatim>\<open>SchemaRef\<close> given to \<open>schemaResolve\<close>: if the embedded
  schema is non-nil it is returned and the world is left as it was, whatever the resolver
  (the resolver is not invoked; the receiver is not even read). Otherwise, with no resolver
  configured the result is nil. Otherwise, with a non-empty reference string, the result and
  the world are exactly those of one call of the resolver on that string (possibly nil).
  With an empty reference string the result is nil and the world is left as it was (the
  resolver is not invoked). The pointers are non-nil here; C10 is about the nil argument.
\<close>

theorem schemaResolve_cases:
  "(\<forall>v. Value r = Some v \<longrightarrow> schemaResolve s (Some r) w = Inr (Some v, w))
   \<and> (Value r = None \<and> customizeSchemaResolve st = None \<longrightarrow>
        schemaResolve (Some st) (Some r) w = Inr (None, w))
   \<and> (\<forall>resolve. Value r = None \<and> customizeSchemaResolve st = Some resolve \<and> Ref r \<noteq> [] \<longrightarrow>
        schemaResolve (Some st) (Some r) w = Inr (resolve (Ref r) w))
   \<and> (Value r = None \<and> Ref r = [] \<longrightarrow>
        schemaResolve (Some st) (Some r) w = Inr (None, w))"
  by (auto simp: schemaResolve_def split: option.splits)

text \<open>
  The four branches with a call-counting stub: the world is the number of calls of the
  resolver so far. The count stays 0 with an embedded schema, with no resolver and with an
  empty reference; it is 1 after the fallback.
\<close>

theorem schemaResolve_cases_witness:
  "Value \<lparr>Ref = ''#/components/schemas/Pet'', Value = Some ''Embedded''\<rparr> = Some ''Embedded''
   \<and> schemaResolve
        (Some ((zeroSettings :: (nat, nat, string) schemaValidationSettings)
           \<lparr>customizeSchemaResolve := Some (\<lambda>ref n. (Some ''Pet'', Suc n))\<rparr>))
        (Some \<lparr>Ref = ''#/components/schemas/Pet'', Value = Some ''Embedded''\<rparr>) 0
      = Inr (Some ''Embedded'', 0)
   \<and> customizeSchemaResolve (zeroSettings :: (nat, nat, string) schemaValidationSettings) = None
   \<and> schemaResolve (Some (zeroSettings :: (nat, nat, string) schemaValidationSettings))
        (Some \<lparr>Ref = ''#/components/schemas/Pet'', Value = None\<rparr>) 0
      = Inr (None, 0)
   \<and> schemaResolve
        (Some ((zeroSettings :: (nat, nat, string) schemaValidationSettings)
           \<lparr>customizeSchemaResolve := Some (\<lambda>ref n. (Some ''Pet'', Suc n))\<rparr>))
        (Some \<lparr>Ref = ''#/components/schemas/Pet'', Value = None\<rparr>) 0
      = Inr (Some ''Pet'', 1)
   \<and> schemaResolve
        (Some ((zeroSettings :: (nat, nat, string) schemaValidationSettings)
           \<lparr>customizeSchemaResolve := Some (\<lambda>ref n. (Some ''Pet'', Suc n))\<rparr>))
        (Some \<lparr>Ref = [], Value = None\<rparr>) 0
      = Inr (None, 0)"
proof -
  let ?stub = "\<lambda>(ref :: string) (n :: nat). (Some ''Pet'', Suc n)"
  let ?st = "(zeroSettings :: (nat, nat, string) schemaValidationSettings)
               \<lparr>customizeSchemaResolve := Some ?stub\<rparr>"
  let ?z = "zeroSettings :: (nat, nat, string) schemaValidationSettings"
  let ?embedded = "\<lparr>Ref = ''#/components/schemas/Pet'', Value = Some ''Embedded''\<rparr>"
  let ?pet = "\<lparr>Ref = ''#/components/schemas/Pet'', Value = (None :: string option)\<rparr>"
  let ?empty = "\<lparr>Ref = [], Value = (None :: string option)\<rparr>"
  have a: "schemaResolve (Some ?st) (Some ?embedded) 0 = Inr (Some ''Embedded'', 0)"
    using schemaResolve_cases[of ?embedded "Some ?st" 0 ?st] by simp
  have b: "schemaResolve (Some ?z) (Some ?pet) 0 = Inr (None, 0)"
    using schemaResolve_cases[of ?pet "Some ?z" 0 ?z] by simp
  have c: "schemaResolve (Some ?st) (Some ?pet) 0 = Inr (Some ''Pet'', 1)"
    using schemaResolve_cases[of ?pet "Some ?st" 0 ?st] by simp
  have d: "schemaResolve (Some ?st) (Some ?empty) 0 = Inr (None, 0)"
    using schemaResolve_cases[of ?empty "Some ?st" 0 ?st] by simp
  from a b c d show ?thesis by simp
qed

text \<open>
  C10. \<open>schemaResolve\<close> reads \<^verbatim>\<open>schemaRef.Value\<close> first, with no nil check: on a nil
  \<^verbatim>\<open>schemaRef\<close> it panics, whatever the receiver and the world; with a non-nil receiver it
  returns exactly when the \<^verbatim>\<open>schemaRef\<close> is non-nil.
\<close>

theorem schemaResolve_nil_schemaRef:
  "schemaResolve s None w = Inl NilPointerDereference
   \<and> (\<exists>res. schemaResolve (Some st) (Some r) w = Inr res)
   \<and> ((\<exists>res. schemaResolve (Some st) schemaRef w = Inr res) \<longleftrightarrow> schemaRef \<noteq> None)"
  by (auto simp: schemaResolve_def split: option.splits)

section \<open>Construction returns\<close>




section \<open>The defaults-applied callback\<close>

lemma notifyTimes_fired:
  "once_done (onceSettingDefaults s) \<Longrightarrow> notifyTimes n s w = (s, w)"
  by (induction n arbitrary: s w)
    (auto simp: notifyDefaultsApplied_def Once_Do_def split: option.splits)

lemma notifyTimes_first:
  assumes "defaultsSet s = Some f" and "\<not> once_done (onceSettingDefaults s)"
  shows "snd (notifyTimes (Suc n) s w) = f w"
proof -
  let ?s' = "s\<lparr>onceSettingDefaults := (onceSettingDefaults s)\<lparr>once_done := True\<rparr>\<rparr>"
  have "notifyDefaultsApplied s w = (?s', f w)"
    using assms by (simp add: notifyDefaultsApplied_def Once_Do_def)
  moreover have "notifyTimes n ?s' (f w) = (?s', f w)"
    by (rule notifyTimes_fired) simp
  ultimately show ?thesis by simp
qed

lemma notifyTimes_snd:
  assumes "defaultsSet s = Some f"
  shows "snd (notifyTimes n s w) = (if n = 0 \<or> once_done (onceSettingDefaults s) then w else f w)"
proof (cases n)
  case 0
  then show ?thesis by simp
next
  case (Suc m)
  show ?thesis
  proof (cases "once_done (onceSettingDefaults s)")
    case True
    then show ?thesis by (simp add: notifyTimes_fired)
  next
    case False
    with notifyTimes_first[OF assms False, of m w] Suc show ?thesis by simp
  qed
qed

lemma newSchemaValidationSettings_latch:
  assumes "list_all recognized opts" and "newSchemaValidationSettings opts = Inr s"
  shows "\<not> once_done (onceSettingDefaults s)"
  using range_opts_toggles[OF assms(1), of zeroSettings] assms(2)
  by (auto simp: newSchemaValidationSettings_def)

text \<open>
  C2. For a policy with a defaults-applied callback \<open>f\<close>, after any number \<open>n\<close> of
  invocations of "notify defaults applied" in sequence the world is either untouched or
  the result of exactly one execution of \<open>f\<close>: the callback executes at most once. For a
  policy as construction from recognized options returns it, the latch not fired, three
  invocations execute the callback exactly once, and so does any positive number.
\<close>

theorem defaultsSet_at_most_once:
  "(defaultsSet s = Some f \<longrightarrow>
      snd (notifyTimes n s w) = (if n = 0 \<or> once_done (onceSettingDefaults s) then w else f w))
   \<and> (list_all recognized opts \<and> newSchemaValidationSettings opts = Inr s
        \<and> defaultsSet s = Some f \<longrightarrow>
      snd (notifyTimes 3 s w) = f w
      \<and> snd (notifyTimes n s w) = (if n = 0 then w else f w))"
proof (intro conjI impI)
  assume "defaultsSet s = Some f"
  then show "snd (notifyTimes n s w)
      = (if n = 0 \<or> once_done (onceSettingDefaults s) then w else f w)"
    by (rule notifyTimes_snd)
next
  assume a: "list_all recognized opts \<and> newSchemaValidationSettings opts = Inr s
        \<and> defaultsSet s = Some f"
  then have l: "\<not> once_done (onceSettingDefaults s)"
    using newSchemaValidationSettings_latch by blast
  from a have d: "defaultsSet s = Some f" by simp
  show "snd (notifyTimes 3 s w) = f w"
    using notifyTimes_snd[OF d, of 3 w] l by simp
  show "snd (notifyTimes n s w) = (if n = 0 then w else f w)"
    using notifyTimes_snd[OF d, of n w] l by simp
qed

text \<open>C2 with a counting callback: the world is the number of executions so far.\<close>

theorem defaultsSet_at_most_once_witness:
  "list_all recognized [FailFast, DefaultsSet (Some Suc) :: (nat, nat, nat) SchemaValidationOption]
   \<and> newSchemaValidationSettings
        [FailFast, DefaultsSet (Some Suc) :: (nat, nat, nat) SchemaValidationOption]
      = Inr (zeroSettings\<lparr>failfast := True, defaultsSet := Some Suc\<rparr>)
   \<and> defaultsSet ((zeroSettings :: (nat, nat, nat) schemaValidationSettings)
        \<lparr>failfast := True, defaultsSet := Some Suc\<rparr>) = Some Suc
   \<and> snd (notifyTimes 3 ((zeroSettings :: (nat, nat, nat) schemaValidationSettings)
        \<lparr>failfast := True, defaultsSet := Some Suc\<rparr>) 0) = 1
   \<and> snd (notifyTimes 0 ((zeroSettings :: (nat, nat, nat) schemaValidationSettings)
        \<lparr>failfast := True, defaultsSet := Some Suc\<rparr>) 0) = 0
   \<and> snd (notifyTimes 7 ((zeroSettings :: (nat, nat, nat) schemaValidationSettings)
        \<lparr>failfast := True, defaultsSet := Some Suc\<rparr>) 0) = 1"
proof -
  let ?opts = "[FailFast, DefaultsSet (Some Suc) :: (nat, nat, nat) SchemaValidationOption]"
  let ?s = "(zeroSettings :: (nat, nat, nat) schemaValidationSettings)
        \<lparr>failfast := True, defaultsSet := Some Suc\<rparr>"
  have h1: "list_all recognized ?opts" by (simp add: recognized.intros)
  have h2: "newSchemaValidationSettings ?opts = Inr ?s"
    by (simp add: newSchemaValidationSettings_def FailFast_def DefaultsSet_def)
  have h3: "defaultsSet ?s = Some Suc" by simp
  from defaultsSet_at_most_once[of ?s Suc 0 0 ?opts] h1 h2 h3
  have c0: "snd (notifyTimes 3 ?s 0) = 1" "snd (notifyTimes 0 ?s 0) = 0" by simp_all
  from defaultsSet_at_most_once[of ?s Suc 7 0 ?opts] h1 h2 h3
  have c7: "snd (notifyTimes 7 ?s 0) = 1" by simp
  from h1 h2 h3 c0 c7 show ?thesis by blast
qed

section \<open>The error-message customizer\<close>

text \<open>
  C7. For every validation error: with no error-message customizer configured, or when the
  customizer returns the empty string for that error, the rendered message is the
  validator's own rendering; otherwise it is the non-empty string the customizer returns.
\<close>

theorem formatErrorMessage_cases:
  "(customizeMessageError s = None \<longrightarrow> formatErrorMessage s defaultError err = defaultError err)
   \<and> (\<forall>f. customizeMessageError s = Some f \<longrightarrow>
         formatErrorMessage s defaultError err = (if f err = [] then defaultError err else f err))"
  by (simp add: formatErrorMessage_def Let_def)

text \<open>C7 with no customizer, and with one that is empty on error 0 and not on error 1.\<close>

theorem formatErrorMessage_cases_witness:
  "customizeMessageError (zeroSettings :: (nat, nat, nat) schemaValidationSettings) = None
   \<and> formatErrorMessage (zeroSettings :: (nat, nat, nat) schemaValidationSettings)
        (\<lambda>e. ''default'') 0 = ''default''
   \<and> formatErrorMessage
        ((zeroSettings :: (nat, nat, nat) schemaValidationSettings)
           \<lparr>customizeMessageError := Some (\<lambda>e. if e = 0 then [] else ''custom'')\<rparr>)
        (\<lambda>e. ''default'') 0 = ''default''
   \<and> formatErrorMessage
        ((zeroSettings :: (nat, nat, nat) schemaValidationSettings)
           \<lparr>customizeMessageError := Some (\<lambda>e. if e = 0 then [] else ''custom'')\<rparr>)
        (\<lambda>e. ''default'') 1 = ''custom''"
proof -
  let ?z = "zeroSettings :: (nat, nat, nat) schemaValidationSettings"
  let ?c = "\<lambda>e :: nat. if e = 0 then [] else ''custom''"
  let ?s = "?z\<lparr>customizeMessageError := Some ?c\<rparr>"
  let ?d = "\<lambda>e :: nat. ''default''"
  have h: "customizeMessageError ?z = None" by simp
  have a: "formatErrorMessage ?z ?d 0 = ''default''"
    using formatErrorMessage_cases[of ?z ?d 0] by simp
  have b: "formatErrorMessage ?s ?d 0 = ''default''"
    using formatErrorMessage_cases[of ?s ?d 0] by simp
  have c: "formatErrorMessage ?s ?d 1 = ''custom''"
    using formatErrorMessage_cases[of ?s ?d 1] by simp
  from h a b c show ?thesis by blast
qed

section \<open>Later options win\<close>

lemma range_opts_snoc:
  "range_opts (opts @ [opt]) s =
     (case range_opts opts s of
        Inl e \<Rightarrow> Inl e
      | Inr t \<Rightarrow> (case opt of None \<Rightarrow> Inl NilPointerDereference | Some f \<Rightarrow> Inr (f t)))"
  by (simp add: range_opts_append split: sum.splits option.splits)

lemma range_opts_keeps:
  "\<forall>z\<in>set zs. \<exists>h. z = Some h \<and> (\<forall>s. get (h s) = get s)
     \<Longrightarrow> \<exists>t. range_opts zs s = Inr t \<and> get t = get s"
proof (induction zs arbitrary: s)
  case Nil
  then show ?case by simp
next
  case (Cons z zs)
  then obtain h where h: "z = Some h" and k: "\<forall>s. get (h s) = get s" by auto
  from Cons.prems have "\<forall>z\<in>set zs. \<exists>h. z = Some h \<and> (\<forall>s. get (h s) = get s)" by simp
  from Cons.IH[OF this, of "h s"] k show ?case by (simp add: h)
qed

lemma range_opts_last_assignment:
  assumes "None \<notin> set xs" and "\<forall>s. get (f s) = v"
    and "\<forall>z\<in>set zs. \<exists>h. z = Some h \<and> (\<forall>s. get (h s) = get s)"
  shows "\<exists>t. range_opts (xs @ Some f # zs) s = Inr t \<and> get t = v"
proof -
  from assms(1) obtain u where u: "range_opts xs s = Inr u"
    using range_opts_returns[of xs s] by blast
  from range_opts_keeps[OF assms(3), of "f u"] assms(2)
  show ?thesis by (simp add: range_opts_append u)
qed

lemma keeps_defaultsSet:
  assumes "recognized z" and "\<forall>g. z \<noteq> DefaultsSet g" and "z = Some h"
  shows "defaultsSet (h s) = defaultsSet s"
  using assms(1)
proof (cases rule: recognized.cases)
  case (rec_DefaultsSet a)
  with assms(2) show ?thesis by blast
qed (insert assms(3), auto simp: opt_defs)

lemma last_DefaultsSet:
  assumes "list_all recognized xs" and "list_all recognized zs" and "\<forall>g. DefaultsSet g \<notin> set zs"
  shows "\<exists>t. range_opts (xs @ DefaultsSet d # zs) s = Inr t \<and> defaultsSet t = d"
proof -
  have n: "None \<notin> set xs"
    using assms(1) recognized_Some by (fastforce simp: list_all_iff)
  have k: "\<forall>z\<in>set zs. \<exists>h. z = Some h \<and> (\<forall>s. defaultsSet (h s) = defaultsSet s)"
  proof
    fix z assume z: "z \<in> set zs"
    with assms(2) have r: "recognized z" by (simp add: list_all_iff)
    then obtain h where h: "z = Some h" using recognized_Some by blast
    from z assms(3) have "\<forall>g. z \<noteq> DefaultsSet g" by blast
    from keeps_defaultsSet[OF r this h] h
    show "\<exists>h. z = Some h \<and> (\<forall>s. defaultsSet (h s) = defaultsSet s)" by blast
  qed
  have a: "\<forall>s. defaultsSet ((\<lambda>s. s\<lparr>defaultsSet := d\<rparr>) s) = d" by simp
  from range_opts_last_assignment[OF n a k, of s]
  show ?thesis by (simp add: DefaultsSet_def)
qed

lemma keeps_customizeMessageError:
  assumes "recognized z" and "\<forall>g. z \<noteq> SetSchemaErrorMessageCustomizer g" and "z = Some h"
  shows "customizeMessageError (h s) = customizeMessageError s"
  using assms(1)
proof (cases rule: recognized.cases)
  case (rec_SetSchemaErrorMessageCustomizer a)
  with assms(2) show ?thesis by blast
qed (insert assms(3), auto simp: opt_defs)

lemma last_SetSchemaErrorMessageCustomizer:
  assumes "list_all recognized xs" and "list_all recognized zs" and "\<forall>g. SetSchemaErrorMessageCustomizer g \<notin> set zs"
  shows "\<exists>t. range_opts (xs @ SetSchemaErrorMessageCustomizer d # zs) s = Inr t \<and> customizeMessageError t = d"
proof -
  have n: "None \<notin> set xs"
    using assms(1) recognized_Some by (fastforce simp: list_all_iff)
  have k: "\<forall>z\<in>set zs. \<exists>h. z = Some h \<and> (\<forall>s. customizeMessageError (h s) = customizeMessageError s)"
  proof
    fix z assume z: "z \<in> set zs"
    with assms(2) have r: "recognized z" by (simp add: list_all_iff)
    then obtain h where h: "z = Some h" using recognized_Some by blast
    from z assms(3) have "\<forall>g. z \<noteq> SetSchemaErrorMessageCustomizer g" by blast
    from keeps_customizeMessageError[OF r this h] h
    show "\<exists>h. z = Some h \<and> (\<forall>s. customizeMessageError (h s) = customizeMessageError s)" by blast
  qed
  have a: "\<forall>s. customizeMessageError ((\<lambda>s. s\<lparr>customizeMessageError := d\<rparr>) s) = d" by simp
  from range_opts_last_assignment[OF n a k, of s]
  show ?thesis by (simp add: SetSchemaErrorMessageCustomizer_def)
qed

lemma keeps_customizeSchemaResolve:
  assumes "recognized z" and "\<forall>g. z \<noteq> SetCustomizeSchemaResolve g" and "z = Some h"
  shows "customizeSchemaResolve (h s) = customizeSchemaResolve s"
  using assms(1)
proof (cases rule: recognized.cases)
  case (rec_SetCustomizeSchemaResolve a)
  with assms(2) show ?thesis by blast
qed (insert assms(3), auto simp: opt_defs)

lemma last_SetCustomizeSchemaResolve:
  assumes "list_all recognized xs" and "list_all recognized zs" and "\<forall>g. SetCustomizeSchemaResolve g \<notin> set zs"
  shows "\<exists>t. range_opts (xs @ SetCustomizeSchemaResolve d # zs) s = Inr t \<and> customizeSchemaResolve t = d"
proof -
  have n: "None \<notin> set xs"
    using assms(1) recognized_Some by (fastforce simp: list_all_iff)
  have k: "\<forall>z\<in>set zs. \<exists>h. z = Some h \<and> (\<forall>s. customizeSchemaResolve (h s) = customizeSchemaResolve s)"
  proof
    fix z assume z: "z \<in> set zs"
    with assms(2) have r: "recognized z" by (simp add: list_all_iff)
    then obtain h where h: "z = Some h" using recognized_Some by blast
    from z assms(3) have "\<forall>g. z \<noteq> SetCustomizeSchemaResolve g" by blast
    from keeps_customizeSchemaResolve[OF r this h] h
    show "\<exists>h. z = Some h \<and> (\<forall>s. customizeSchemaResolve (h s) = customizeSchemaResolve s)" by blast
  qed
  have a: "\<forall>s. customizeSchemaResolve ((\<lambda>s. s\<lparr>customizeSchemaResolve := d\<rparr>) s) = d" by simp
  from range_opts_last_assignment[OF n a k, of s]
  show ?thesis by (simp add: SetCustomizeSchemaResolve_def)
qed

text \<open>
  C4. Construction starts from the zero settings and applies the options in the order of
  the list, each exactly once: appending an option applies it to the settings the list
  before it produced. Hence the last option that assigns a field decides its final value:
  for any observation \<open>get\<close> of the settings, when an option assigns it the value \<open>v\<close>
  and no later option changes it, it is \<open>v\<close> in the constructed policy, whatever the
  earlier options assigned. For the three hooks that is the argument of the last option
  setting the hook. Selecting AsResponse after AsRequest leaves only AsResponse set.
\<close>

theorem later_option_wins:
  "newSchemaValidationSettings [] = Inr zeroSettings
   \<and> newSchemaValidationSettings (opts @ [opt]) =
       (case newSchemaValidationSettings opts of
          Inl e \<Rightarrow> Inl e
        | Inr s \<Rightarrow> (case opt of None \<Rightarrow> Inl NilPointerDereference | Some f \<Rightarrow> Inr (f s)))
   \<and> (None \<notin> set xs \<and> (\<forall>s. get (f s) = v)
        \<and> (\<forall>z\<in>set zs. \<exists>h. z = Some h \<and> (\<forall>s. get (h s) = get s)) \<longrightarrow>
      (\<exists>s. newSchemaValidationSettings (xs @ Some f # zs) = Inr s \<and> get s = v))
   \<and> (list_all recognized xs \<and> list_all recognized zs \<and> (\<forall>g. DefaultsSet g \<notin> set zs) \<longrightarrow>
      (\<exists>s. newSchemaValidationSettings (xs @ DefaultsSet d # zs) = Inr s \<and> defaultsSet s = d))
   \<and> (list_all recognized xs \<and> list_all recognized zs
        \<and> (\<forall>g. SetSchemaErrorMessageCustomizer g \<notin> set zs) \<longrightarrow>
      (\<exists>s. newSchemaValidationSettings (xs @ SetSchemaErrorMessageCustomizer c # zs) = Inr s
           \<and> customizeMessageError s = c))
   \<and> (list_all recognized xs \<and> list_all recognized zs
        \<and> (\<forall>g. SetCustomizeSchemaResolve g \<notin> set zs) \<longrightarrow>
      (\<exists>s. newSchemaValidationSettings (xs @ SetCustomizeSchemaResolve r # zs) = Inr s
           \<and> customizeSchemaResolve s = r))
   \<and> newSchemaValidationSettings [VisitAsRequest, VisitAsResponse]
       = Inr (zeroSettings\<lparr>asreq := False, asrep := True\<rparr>)"
proof (intro conjI impI)
  show "newSchemaValidationSettings [] = Inr zeroSettings"
    by (simp add: newSchemaValidationSettings_def)
  show "newSchemaValidationSettings (opts @ [opt]) =
       (case newSchemaValidationSettings opts of
          Inl e \<Rightarrow> Inl e
        | Inr s \<Rightarrow> (case opt of None \<Rightarrow> Inl NilPointerDereference | Some f \<Rightarrow> Inr (f s)))"
    unfolding newSchemaValidationSettings_def by (rule range_opts_snoc)
  show "newSchemaValidationSettings [VisitAsRequest, VisitAsResponse]
       = Inr (zeroSettings\<lparr>asreq := False, asrep := True\<rparr>)"
    by (simp add: newSchemaValidationSettings_def VisitAsRequest_def VisitAsResponse_def)
next
  assume "None \<notin> set xs \<and> (\<forall>s. get (f s) = v)
        \<and> (\<forall>z\<in>set zs. \<exists>h. z = Some h \<and> (\<forall>s. get (h s) = get s))"
  then show "\<exists>s. newSchemaValidationSettings (xs @ Some f # zs) = Inr s \<and> get s = v"
    unfolding newSchemaValidationSettings_def
    using range_opts_last_assignment[of xs get f v zs zeroSettings] by blast
next
  assume "list_all recognized xs \<and> list_all recognized zs \<and> (\<forall>g. DefaultsSet g \<notin> set zs)"
  then show "\<exists>s. newSchemaValidationSettings (xs @ DefaultsSet d # zs) = Inr s
      \<and> defaultsSet s = d"
    unfolding newSchemaValidationSettings_def
    using last_DefaultsSet[of xs zs d zeroSettings] by blast
next
  assume "list_all recognized xs \<and> list_all recognized zs
        \<and> (\<forall>g. SetSchemaErrorMessageCustomizer g \<notin> set zs)"
  then show "\<exists>s. newSchemaValidationSettings (xs @ SetSchemaErrorMessageCustomizer c # zs) = Inr s
           \<and> customizeMessageError s = c"
    unfolding newSchemaValidationSettings_def
    using last_SetSchemaErrorMessageCustomizer[of xs zs c zeroSettings] by blast
next
  assume "list_all recognized xs \<and> list_all recognized zs
        \<and> (\<forall>g. SetCustomizeSchemaResolve g \<notin> set zs)"
  then show "\<exists>s. newSchemaValidationSettings (xs @ SetCustomizeSchemaResolve r # zs) = Inr s
           \<and> customizeSchemaResolve s = r"
    unfolding newSchemaValidationSettings_def
    using last_SetCustomizeSchemaResolve[of xs zs r zeroSettings] by blast
qed

text \<open>
  C4 on concrete lists: the direction, and each of the three hooks, set twice with a
  different value.
\<close>

theorem later_option_wins_witness:
  "(\<exists>s. newSchemaValidationSettings
          ([VisitAsRequest] @ Some (\<lambda>s. s\<lparr>asreq := False, asrep := True\<rparr>)
             # [FailFast :: (nat, nat, nat) SchemaValidationOption]) = Inr s
        \<and> (asreq s, asrep s) = (False, True))
   \<and> list_all recognized [DefaultsSet (Some Suc) :: (nat, nat, nat) SchemaValidationOption]
   \<and> list_all recognized [FailFast :: (nat, nat, nat) SchemaValidationOption]
   \<and> (\<forall>g. DefaultsSet g \<notin> set [FailFast :: (nat, nat, nat) SchemaValidationOption])
   \<and> (\<exists>s. newSchemaValidationSettings
          ([DefaultsSet (Some Suc)] @ DefaultsSet (Some (\<lambda>n. n + 2))
             # [FailFast :: (nat, nat, nat) SchemaValidationOption]) = Inr s
        \<and> defaultsSet s = Some (\<lambda>n. n + 2))
   \<and> (\<forall>g. SetSchemaErrorMessageCustomizer g
          \<notin> set [FailFast :: (nat, nat, nat) SchemaValidationOption])
   \<and> (\<exists>s. newSchemaValidationSettings
          ([SetSchemaErrorMessageCustomizer (Some (\<lambda>e. ''custom''))]
             @ SetSchemaErrorMessageCustomizer None
             # [FailFast :: (nat, nat, nat) SchemaValidationOption]) = Inr s
        \<and> customizeMessageError s = None)
   \<and> (\<forall>g. SetCustomizeSchemaResolve g
          \<notin> set [FailFast :: (nat, nat, nat) SchemaValidationOption])
   \<and> (\<exists>s. newSchemaValidationSettings
          ([SetCustomizeSchemaResolve None] @ SetCustomizeSchemaResolve (Some (\<lambda>ref n. (None, Suc n)))
             # [FailFast :: (nat, nat, nat) SchemaValidationOption]) = Inr s
        \<and> customizeSchemaResolve s = Some (\<lambda>ref n. (None, Suc n)))"
proof -
  let ?ff = "FailFast :: (nat, nat, nat) SchemaValidationOption"
  let ?resp = "\<lambda>s :: (nat, nat, nat) schemaValidationSettings. s\<lparr>asreq := False, asrep := True\<rparr>"
  let ?get = "\<lambda>s :: (nat, nat, nat) schemaValidationSettings. (asreq s, asrep s)"
  have rf: "list_all recognized [?ff]" by (simp add: recognized.intros)
  have n1: "\<forall>g. DefaultsSet g \<notin> set [?ff]"
  proof
    fix g :: "(nat \<Rightarrow> nat) option"
    have "(DefaultsSet g :: (nat, nat, nat) SchemaValidationOption) \<noteq> FailFast"
      using by_effect_FailFast[OF rec_DefaultsSet DefaultsSet_def, of g] by simp
    then show "DefaultsSet g \<notin> set [?ff]" by simp
  qed
  have n2: "\<forall>g. SetSchemaErrorMessageCustomizer g \<notin> set [?ff]"
  proof
    fix g :: "(nat \<Rightarrow> string) option"
    have "(SetSchemaErrorMessageCustomizer g :: (nat, nat, nat) SchemaValidationOption) \<noteq> FailFast"
      using by_effect_FailFast[OF rec_SetSchemaErrorMessageCustomizer
          SetSchemaErrorMessageCustomizer_def, of g] by simp
    then show "SetSchemaErrorMessageCustomizer g \<notin> set [?ff]" by simp
  qed
  have n3: "\<forall>g. SetCustomizeSchemaResolve g \<notin> set [?ff]"
  proof
    fix g :: "(string \<Rightarrow> nat \<Rightarrow> nat option \<times> nat) option"
    have "(SetCustomizeSchemaResolve g :: (nat, nat, nat) SchemaValidationOption) \<noteq> FailFast"
      using by_effect_FailFast[OF rec_SetCustomizeSchemaResolve
          SetCustomizeSchemaResolve_def, of g] by simp
    then show "SetCustomizeSchemaResolve g \<notin> set [?ff]" by simp
  qed
  have g1: "None \<notin> set [VisitAsRequest :: (nat, nat, nat) SchemaValidationOption]"
    by (simp add: VisitAsRequest_def)
  have g2: "\<forall>s. ?get (?resp s) = (False, True)" by simp
  have g3: "\<forall>z\<in>set [?ff]. \<exists>h. z = Some h \<and> (\<forall>s. ?get (h s) = ?get s)"
    by (simp add: FailFast_def)
  have r1: "list_all recognized [DefaultsSet (Some Suc) :: (nat, nat, nat) SchemaValidationOption]"
    and r2: "list_all recognized
      [SetSchemaErrorMessageCustomizer (Some (\<lambda>e. ''custom'')) :: (nat, nat, nat) SchemaValidationOption]"
    and r3: "list_all recognized
      [SetCustomizeSchemaResolve None :: (nat, nat, nat) SchemaValidationOption]"
    by (simp_all add: recognized.intros)
  have c1: "\<exists>s. newSchemaValidationSettings
          ([VisitAsRequest] @ Some ?resp # [?ff]) = Inr s \<and> ?get s = (False, True)"
  proof (rule later_option_wins[where xs = "[VisitAsRequest :: (nat, nat, nat) SchemaValidationOption]"
      and zs = "[?ff]" and get = ?get and f = ?resp and v = "(False, True)",
      THEN conjunct2, THEN conjunct2, THEN conjunct1, THEN mp])
    from g1 g2 g3
    show "None \<notin> set [VisitAsRequest :: (nat, nat, nat) SchemaValidationOption]
      \<and> (\<forall>s. ?get (?resp s) = (False, True))
      \<and> (\<forall>z\<in>set [?ff]. \<exists>h. z = Some h \<and> (\<forall>s. ?get (h s) = ?get s))"
      by (intro conjI)
  qed
  have c2: "\<exists>s. newSchemaValidationSettings
          ([DefaultsSet (Some Suc)] @ DefaultsSet (Some (\<lambda>n. n + 2)) # [?ff]) = Inr s
        \<and> defaultsSet s = Some (\<lambda>n. n + 2)"
  proof (rule later_option_wins[where xs = "[DefaultsSet (Some Suc) :: (nat, nat, nat) SchemaValidationOption]"
      and zs = "[?ff]" and d = "Some (\<lambda>n. n + 2)",
      THEN conjunct2, THEN conjunct2, THEN conjunct2, THEN conjunct1, THEN mp])
    from r1 rf n1
    show "list_all recognized [DefaultsSet (Some Suc) :: (nat, nat, nat) SchemaValidationOption]
      \<and> list_all recognized [?ff] \<and> (\<forall>g. DefaultsSet g \<notin> set [?ff])"
      by (intro conjI)
  qed
  have c3: "\<exists>s. newSchemaValidationSettings
          ([SetSchemaErrorMessageCustomizer (Some (\<lambda>e. ''custom''))]
             @ SetSchemaErrorMessageCustomizer None # [?ff]) = Inr s
        \<and> customizeMessageError s = None"
  proof (rule later_option_wins[where xs = "[SetSchemaErrorMessageCustomizer (Some (\<lambda>e. ''custom'')) :: (nat, nat, nat) SchemaValidationOption]"
      and zs = "[?ff]" and c = None,
      THEN conjunct2, THEN conjunct2, THEN conjunct2, THEN conjunct2, THEN conjunct1, THEN mp])
    from r2 rf n2
    show "list_all recognized [SetSchemaErrorMessageCustomizer (Some (\<lambda>e. ''custom'')) :: (nat, nat, nat) SchemaValidationOption]
      \<and> list_all recognized [?ff] \<and> (\<forall>g. SetSchemaErrorMessageCustomizer g \<notin> set [?ff])"
      by (intro conjI)
  qed
  have c4: "\<exists>s. newSchemaValidationSettings
          ([SetCustomizeSchemaResolve None] @ SetCustomizeSchemaResolve (Some (\<lambda>ref n. (None, Suc n)))
             # [?ff]) = Inr s
        \<and> customizeSchemaResolve s = Some (\<lambda>ref n. (None, Suc n))"
  proof (rule later_option_wins[where xs = "[SetCustomizeSchemaResolve None :: (nat, nat, nat) SchemaValidationOption]"
      and zs = "[?ff]" and r = "Some (\<lambda>ref n. (None, Suc n))",
      THEN conjunct2, THEN conjunct2, THEN conjunct2, THEN conjunct2, THEN conjunct2,
      THEN conjunct1, THEN mp])
    from r3 rf n3
    show "list_all recognized [SetCustomizeSchemaResolve None :: (nat, nat, nat) SchemaValidationOption]
      \<and> list_all recognized [?ff] \<and> (\<forall>g. SetCustomizeSchemaResolve g \<notin> set [?ff])"
      by (intro conjI)
  qed
  show ?thesis
    by (intro conjI c1 r1 rf n1 c2 n2 c3 n3 c4)
qed

section \<open>The empty option sequence\<close>

text \<open>
  C9. Constructing a policy from the empty option sequence yields the zero-valued
  settings: every boolean toggle (failfast, multiError, asreq, asrep,
  formatValidationEnabled, unknownPropertyValidationEnabled, patternValidationDisabled,
  readOnlyValidationDisabled, writeOnlyValidationDisabled) is false, the three hooks
  (defaultsSet, customizeMessageError, customizeSchemaResolve) are nil, and the latch has
  not fired.
\<close>

theorem newSchemaValidationSettings_empty:
  "\<exists>s. newSchemaValidationSettings [] = Inr s
     \<and> \<not> failfast s \<and> \<not> multiError s \<and> \<not> asreq s \<and> \<not> asrep s
     \<and> \<not> formatValidationEnabled s \<and> \<not> unknownPropertyValidationEnabled s
     \<and> \<not> patternValidationDisabled s \<and> \<not> readOnlyValidationDisabled s
     \<and> \<not> writeOnlyValidationDisabled s
     \<and> defaultsSet s = None \<and> customizeMessageError s = None
     \<and> customizeSchemaResolve s = None
     \<and> \<not> once_done (onceSettingDefaults s)"
  by (simp add: newSchemaValidationSettings_def zeroSettings_def)

end
